theory Spec2Isabelle
  imports Complex_Main
begin

section \<open>Disk usage reporter (du.c): data model\<close>

text \<open>
  The C program walks a directory tree with \<open>lstat\<close>, \<open>opendir\<close> and \<open>readdir\<close>, adds up
  \<open>st_blocks / 2\<close> and prints lines with \<open>printf\<close>. The model below keeps the functions
  of the source and their names. What the program reads from the operating system is an
  explicit value (a tree of nodes), what it writes is an explicit state (the lines on
  standard output and standard error, and the table of open directory streams).
\<close>

subsection \<open>The Mode struct\<close>

text \<open>
  \<open>typedef struct { int all; int total; int readable; long depth; char *progName; } Mode;\<close>
  The three flags only ever hold 0 or 1 and are only tested for truth, so they are
  booleans here. \<open>depth\<close> is a \<open>long\<close>; the values it takes come out of \<open>strtol\<close>,
  which clamps to the range of \<open>long\<close>, so an \<open>int\<close> holds them without wrap-around.
\<close>

record Mode =
  all :: bool
  total :: bool
  readable :: bool
  depth :: int
  progName :: string

subsection \<open>File metadata and the directory tree\<close>

text \<open>
  The file type bits of \<open>st_mode\<close> that \<open>S_ISREG\<close>, \<open>S_ISLNK\<close> and \<open>S_ISDIR\<close> tell
  apart, with the remaining POSIX types (FIFO, socket, character and block device).
\<close>

datatype ftype = S_IFREG | S_IFLNK | S_IFDIR | S_IFIFO | S_IFSOCK | S_IFCHR | S_IFBLK

text \<open>
  A node is what \<open>lstat\<close> and \<open>opendir\<close>/\<open>readdir\<close> report of one path: its type, its
  \<open>st_blocks\<close> (a count of 512-byte blocks, never negative), whether \<open>opendir\<close> fails on
  it (\<open>Some\<close> the text \<open>perror\<close> prints for the error) and the entries \<open>readdir\<close>
  returns in its order, each a \<open>d_name\<close> with the node of that entry. The entries exist
  on disk whether or not \<open>opendir\<close> succeeds: a directory without read permission keeps
  its content. The entries \<open>.\<close> and \<open>..\<close> may be listed; the node paired with them is
  never looked at.

  Scope of the model: \<open>lstat\<close> succeeds on the directory being walked and on every entry
  \<open>readdir\<close> returned (the source does not test its result there), and paths fit into
  \<open>PATH_MAX\<close> bytes.
\<close>

datatype node = Node (st_mode: ftype) (st_blocks: nat) (opendir_error: "string option")
  (dirents: "(string \<times> node) list")

definition isFile :: "ftype \<Rightarrow> bool" where
  "isFile type = (type = S_IFREG \<or> type = S_IFLNK)"

definition isDir :: "ftype \<Rightarrow> bool" where
  "isDir type = (type = S_IFDIR)"

text \<open>\<open>buf.st_blocks / 2\<close> on a \<open>long\<close>: the count is not negative, so C's truncating
  division is the floor.\<close>

definition kib :: "node \<Rightarrow> int" where
  "kib n = int (st_blocks n) div 2"

subsection \<open>The size formatter\<close>

text \<open>
  \<open>PrintFileReadable\<close> computes in \<open>double\<close>. Its argument is \<open>(double)size\<close> for a
  \<open>long size\<close>; for sizes below \<open>2^53\<close> KiB that conversion, the divisions by 1024 (a
  power of two), the products \<open>x * 10\<close> formed for \<open>x \<le> 10\<close> and the sums \<open>x + 1\<close> are
  all exact in binary floating point, and \<open>x / 10 > 1\<close> holds of the rounded quotient
  exactly when \<open>x > 10\<close>. On that range the doubles are the rationals below.

  \<open>(int)x\<close> truncates towards zero.
\<close>

definition BYTE_CONV :: rat where
  "BYTE_CONV = 1024"

definition int_cast :: "rat \<Rightarrow> int" where
  "int_cast x = (if 0 \<le> x then \<lfloor>x\<rfloor> else \<lceil>x\<rceil>)"

text \<open>\<open>int ceiling(double x) { return x - (int)x > 0 ? (int)(x + 1) : (int)x; }\<close>\<close>

definition ceiling_du :: "rat \<Rightarrow> int" where
  "ceiling_du x = (if x - of_int (int_cast x) > 0 then int_cast (x + 1) else int_cast x)"

datatype unit_tier = KiB | MiB | GiB | TiB

text \<open>
  What one call of \<open>PrintFileReadable\<close> puts into \<open>size\<close>: the literal \<open>0\<close>, the format
  \<open>%d\<close> of an \<open>int\<close> followed by the unit letter, or the format \<open>%.1lf\<close> of
  \<open>c / 10.0\<close> for an \<open>int c\<close> followed by the unit letter.
\<close>

datatype rendering = Plain0 | Whole int unit_tier | Tenths int unit_tier

definition readable_size :: "rat \<Rightarrow> rendering" where
  "readable_size kb =
     (let mb = kb / BYTE_CONV; gb = mb / BYTE_CONV; tb = gb / BYTE_CONV in
      if tb \<ge> 1 then
        (if tb / 10 > 1 then Whole (ceiling_du tb) TiB
         else Tenths (ceiling_du (tb * 10)) TiB)
      else if gb \<ge> 1 then
        (if gb / 10 > 1 then Whole (ceiling_du gb) GiB
         else Tenths (ceiling_du (gb * 10)) GiB)
      else if mb \<ge> 1 then
        (if mb / 10 > 1 then Whole (ceiling_du mb) MiB
         else Tenths (ceiling_du (mb * 10)) MiB)
      else if kb / 10 > 1 then Whole (ceiling_du kb) KiB
      else if kb = 0 then Plain0
      else Tenths (ceiling_du (kb * 10)) KiB)"

text \<open>Decimal digits, as \<open>%d\<close> and \<open>%ld\<close> print them.\<close>

definition digit_char :: "nat \<Rightarrow> char" where
  "digit_char d = ''0123456789'' ! (d mod 10)"

fun show_nat :: "nat \<Rightarrow> string" where
  "show_nat n = (if n < 10 then [digit_char n] else show_nat (n div 10) @ [digit_char n])"

declare show_nat.simps [simp del]

definition show_int :: "int \<Rightarrow> string" where
  "show_int i = (if i < 0 then CHR ''-'' # show_nat (nat (- i)) else show_nat (nat i))"

text \<open>\<open>%.1lf\<close> of \<open>c / 10.0\<close>: the integer part, a point and the last digit of \<open>c\<close>.\<close>

definition show_tenths :: "int \<Rightarrow> string" where
  "show_tenths c =
     (if c < 0 then ''-'' else '''') @ show_nat (nat \<bar>c\<bar> div 10) @ ''.'' @ [digit_char (nat \<bar>c\<bar>)]"

fun unit_letter :: "unit_tier \<Rightarrow> string" where
  "unit_letter KiB = ''K''"
| "unit_letter MiB = ''M''"
| "unit_letter GiB = ''G''"
| "unit_letter TiB = ''T''"

fun size_field :: "rendering \<Rightarrow> string" where
  "size_field Plain0 = ''0''"
| "size_field (Whole n u) = show_int n @ unit_letter u"
| "size_field (Tenths c u) = show_tenths c @ unit_letter u"

text \<open>The conversions \<open>%-8ld\<close> and \<open>%-8s\<close>: left-justified in a field of at least 8.\<close>

definition left8 :: "string \<Rightarrow> string" where
  "left8 s = s @ drop (length s) ''        ''"

subsection \<open>Standard output, standard error and directory streams\<close>

text \<open>
  The state the program changes: the lines written to standard output and to standard
  error (each entry is one line, without its final newline), the directory streams that
  are open (\<open>DIR *\<close> values, numbered as they are handed out) and the next number.
\<close>

record world =
  stdout :: "string list"
  stderr :: "string list"
  open_dirs :: "nat list"
  next_dir :: nat

text \<open>
  \<open>opendir\<close> gives a new stream for a directory that can be read and \<open>NULL\<close>
  (\<open>None\<close>) otherwise; \<open>opendir_errno\<close> is the text \<open>perror\<close> prints after a failure.
\<close>

definition opendir :: "node \<Rightarrow> world \<Rightarrow> nat option \<times> world" where
  "opendir n w =
     (if st_mode n = S_IFDIR \<and> opendir_error n = None
      then (Some (next_dir w),
            w\<lparr>open_dirs := next_dir w # open_dirs w, next_dir := Suc (next_dir w)\<rparr>)
      else (None, w))"

definition opendir_errno :: "node \<Rightarrow> string" where
  "opendir_errno n =
     (if st_mode n = S_IFDIR
      then (case opendir_error n of Some e \<Rightarrow> e | None \<Rightarrow> ''Success'')
      else ''Not a directory'')"

text \<open>
  \<open>closedir\<close> of an open stream takes it out of the table. The program also calls
  \<open>closedir(NULL)\<close> and ignores the result; the C library of the platform the program
  is written for (glibc) answers that call with \<open>-1\<close> and \<open>EINVAL\<close> and touches no
  stream, which is what the \<open>None\<close> case says. POSIX itself leaves the call undefined.
\<close>

definition closedir :: "nat option \<Rightarrow> world \<Rightarrow> world" where
  "closedir dir w =
     (case dir of None \<Rightarrow> w | Some h \<Rightarrow> w\<lparr>open_dirs := removeAll h (open_dirs w)\<rparr>)"

definition print_out :: "string \<Rightarrow> world \<Rightarrow> world" where
  "print_out line w = w\<lparr>stdout := stdout w @ [line]\<rparr>"

definition print_err :: "string \<Rightarrow> world \<Rightarrow> world" where
  "print_err line w = w\<lparr>stderr := stderr w @ [line]\<rparr>"

definition apostrophe :: char where
  "apostrophe = CHR 0x27"

definition backquote :: char where
  "backquote = CHR 0x60"

subsection \<open>Printing one usage line\<close>

text \<open>\<open>PrintFileReadable\<close>: \<open>printf(RD_FORMAT, size, file)\<close> with \<open>"%-8s%s\n"\<close>.\<close>

definition PrintFileReadable :: "string \<Rightarrow> rat \<Rightarrow> world \<Rightarrow> world" where
  "PrintFileReadable file kb w = print_out (left8 (size_field (readable_size kb)) @ file) w"

text \<open>\<open>PrintFileUsage\<close>: the readable form, or \<open>printf(OUT_FORMAT, size, name)\<close> with
  \<open>"%-8ld%s\n"\<close>; the size is returned unchanged.\<close>

definition PrintFileUsage :: "int \<Rightarrow> string \<Rightarrow> Mode \<Rightarrow> world \<Rightarrow> int \<times> world" where
  "PrintFileUsage siz name mode w =
     (siz, if readable mode then PrintFileReadable name (of_int siz) w
           else print_out (left8 (show_int siz) @ name) w)"

definition DepthOK :: "int \<Rightarrow> Mode \<Rightarrow> bool" where
  "DepthOK dep mode = (dep \<le> depth mode \<or> depth mode = - 1)"

subsection \<open>The walker\<close>

text \<open>\<open>strcpy(cdir, file); if (strcmp(file, "/")) strcat(cdir, "/"); strcat(cdir, name);\<close>\<close>

definition child_path :: "string \<Rightarrow> string \<Rightarrow> string" where
  "child_path file name = file @ (if file \<noteq> ''/'' then ''/'' else []) @ name"

definition cannot_read :: "Mode \<Rightarrow> string \<Rightarrow> string \<Rightarrow> string" where
  "cannot_read mode file errtext =
     progName mode @ '': cannot read directory '' @ [backquote] @ file @ [apostrophe]
       @ '': '' @ errtext"

text \<open>
  \<open>PrintDirectoryUsage\<close> with its \<open>while ((entry = readdir(dir)))\<close> loop as
  \<open>readdir_loop\<close>, which carries the running \<open>total\<close>. The \<open>goto cleanup\<close> of the error
  path and the fall through of the normal path both end in \<open>closedir(dir)\<close>.
\<close>

fun PrintDirectoryUsage :: "string \<Rightarrow> node \<Rightarrow> Mode \<Rightarrow> int \<Rightarrow> world \<Rightarrow> int \<times> world"
  and readdir_loop ::
    "string \<Rightarrow> (string \<times> node) list \<Rightarrow> Mode \<Rightarrow> int \<Rightarrow> int \<Rightarrow> world \<Rightarrow> int \<times> world"
where
  "PrintDirectoryUsage file (Node ty blocks operr ents) mode dep w =
     (let (dir, w1) = opendir (Node ty blocks operr ents) w;
          tot = int blocks div 2
      in case dir of
           None \<Rightarrow>
             (tot, closedir dir
                (print_err (cannot_read mode file (opendir_errno (Node ty blocks operr ents))) w1))
         | Some h \<Rightarrow>
             (let (tot', w2) = readdir_loop file ents mode dep tot w1;
                  w3 = (if DepthOK dep mode then snd (PrintFileUsage tot' file mode w2) else w2)
              in (tot', closedir dir w3)))"
| "readdir_loop file [] mode dep tot w = (tot, w)"
| "readdir_loop file ((name, child) # rest) mode dep tot w =
     (if name = ''.'' \<or> name = ''..'' then readdir_loop file rest mode dep tot w
      else
        (let cdir = child_path file name in
         if isFile (st_mode child) \<and> all mode \<and> DepthOK (dep + 1) mode then
           (let (s, w1) = PrintFileUsage (kib child) cdir mode w
            in readdir_loop file rest mode dep (tot + s) w1)
         else if isDir (st_mode child) then
           (let (s, w1) = PrintDirectoryUsage cdir child mode (dep + 1) w
            in readdir_loop file rest mode dep (tot + s) w1)
         else readdir_loop file rest mode dep (tot + kib child) w))"

subsection \<open>The reporter\<close>

text \<open>
  \<open>lstat\<close> on a path named on the command line is a lookup that can fail. The loop
  \<open>while (*files)\<close> of \<open>PrintDiskUsage\<close> is \<open>files_loop\<close>, carrying \<open>total\<close> and
  \<open>retVal\<close>. With no path at all the walker runs on \<open>"."\<close>, whose node is \<open>cwd\<close>.
\<close>

definition cannot_access :: "Mode \<Rightarrow> string \<Rightarrow> string" where
  "cannot_access mode file =
     progName mode @ '': cannot access '' @ [backquote] @ file @ [apostrophe]
       @ '': No such file or directory''"

fun files_loop ::
  "(string \<Rightarrow> node option) \<Rightarrow> string list \<Rightarrow> Mode \<Rightarrow> int \<Rightarrow> int \<Rightarrow> world \<Rightarrow> int \<times> int \<times> world"
where
  "files_loop lstat [] mode tot retVal w = (tot, retVal, w)"
| "files_loop lstat (f # files) mode tot retVal w =
     (case lstat f of
        None \<Rightarrow> files_loop lstat files mode tot 1 (print_err (cannot_access mode f) w)
      | Some buf \<Rightarrow>
          if isFile (st_mode buf) then
            (let (s, w1) = PrintFileUsage (kib buf) f mode w
             in files_loop lstat files mode (tot + s) retVal w1)
          else if isDir (st_mode buf) then
            (let (s, w1) = PrintDirectoryUsage f buf mode 0 w
             in files_loop lstat files mode (tot + s) retVal w1)
          else files_loop lstat files mode tot retVal w)"

definition PrintDiskUsage ::
  "node \<Rightarrow> (string \<Rightarrow> node option) \<Rightarrow> string list \<Rightarrow> Mode \<Rightarrow> world \<Rightarrow> int \<times> world"
where
  "PrintDiskUsage cwd lstat files mode w =
     (let (tot, w1) = (if files = [] then PrintDirectoryUsage ''.'' cwd mode 0 w else (0, w));
          (tot', retVal, w2) = files_loop lstat files mode tot 0 w1;
          w3 = (if total mode then snd (PrintFileUsage tot' ''total'' mode w2) else w2)
      in (retVal, w3))"

subsection \<open>Reading the command line\<close>

text \<open>
  \<open>strtol(s, NULL, 10)\<close> as ISO C defines it and glibc implements it, for a
  64-bit \<open>long\<close>: white space is skipped, one sign is read, then the longest run of
  decimal digits; the rest of the string is ignored. With no digit there is no
  conversion: the result is 0 and \<open>errno\<close> is left alone. A value outside the range of
  \<open>long\<close> gives the nearest bound and sets \<open>errno\<close> to \<open>ERANGE\<close>. The second component
  says whether \<open>errno\<close> was set.
\<close>

definition LONG_MAX :: int where
  "LONG_MAX = 2 ^ 63 - 1"

definition LONG_MIN :: int where
  "LONG_MIN = - (2 ^ 63)"

definition isspace :: "char \<Rightarrow> bool" where
  "isspace c = (c = CHR 0x20 \<or> c = CHR 0x09 \<or> c = CHR 0x0A \<or> c = CHR 0x0B
     \<or> c = CHR 0x0C \<or> c = CHR 0x0D)"

definition isdigit :: "char \<Rightarrow> bool" where
  "isdigit c = (48 \<le> (of_char c :: nat) \<and> (of_char c :: nat) \<le> 57)"

fun digits_value :: "int \<Rightarrow> string \<Rightarrow> int" where
  "digits_value acc [] = acc"
| "digits_value acc (c # cs) = digits_value (acc * 10 + (of_char c - 48)) cs"

definition strtol :: "string \<Rightarrow> int \<times> bool" where
  "strtol s =
     (let s1 = dropWhile isspace s;
          neg = (take 1 s1 = ''-'');
          s2 = (if take 1 s1 = ''-'' \<or> take 1 s1 = ''+'' then drop 1 s1 else s1);
          ds = takeWhile isdigit s2;
          v = (if neg then - digits_value 0 ds else digits_value 0 ds)
      in if ds = [] then (0, False)
         else if v > LONG_MAX then (LONG_MAX, True)
         else if v < LONG_MIN then (LONG_MIN, True)
         else (v, False))"

definition invalid_depth :: "Mode \<Rightarrow> string \<Rightarrow> string" where
  "invalid_depth mode v =
     progName mode @ '': invalid maximum depth '' @ [backquote] @ v @ [apostrophe]"

definition unrecognized_option :: "Mode \<Rightarrow> string \<Rightarrow> string" where
  "unrecognized_option mode arg =
     progName mode @ '': unrecognized option '' @ [apostrophe] @ arg @ [apostrophe]"

definition invalid_option :: "Mode \<Rightarrow> char \<Rightarrow> string" where
  "invalid_option mode c =
     progName mode @ '': invalid option -- '' @ [apostrophe, c, apostrophe]"

definition try_help :: string where
  "try_help = ''Try '' @ [backquote] @ ''du --help'' @ [apostrophe] @ '' for more information.''"

text \<open>The loop \<open>while (*(++(*argv)))\<close> over the letters of a short option cluster.\<close>

fun short_options :: "string \<Rightarrow> Mode \<Rightarrow> bool \<Rightarrow> world \<Rightarrow> Mode \<times> bool \<times> world" where
  "short_options [] mode invalid w = (mode, invalid, w)"
| "short_options (c # cs) mode invalid w =
     (if c = CHR ''a'' then short_options cs (mode\<lparr>all := True\<rparr>) invalid w
      else if c = CHR ''c'' then short_options cs (mode\<lparr>total := True\<rparr>) invalid w
      else if c = CHR ''h'' then short_options cs (mode\<lparr>readable := True\<rparr>) invalid w
      else short_options cs mode True (print_err (invalid_option mode c) w))"

text \<open>
  The loop over \<open>argv[1..]\<close>. An argument of at least 12 characters that starts with two
  dashes is compared with \<open>--max-depth=\<close> on its first 12 characters; \<open>mode->depth\<close> is
  assigned whether or not the value was accepted. Paths are stored in the order given.
\<close>

fun argv_loop ::
  "string list \<Rightarrow> Mode \<Rightarrow> string list \<Rightarrow> bool \<Rightarrow> world \<Rightarrow> Mode \<times> string list \<times> bool \<times> world"
where
  "argv_loop [] mode files invalid w = (mode, files, invalid, w)"
| "argv_loop (arg # rest) mode files invalid w =
     (if length arg \<ge> 12 \<and> take 2 arg = ''--'' then
        (if take 12 arg = ''--max-depth='' then
           (let (dep, errno) = strtol (drop 12 arg) in
            if errno \<or> dep < 0 \<or> drop 12 arg = [] then
              argv_loop rest (mode\<lparr>depth := dep\<rparr>) files True
                (print_err (invalid_depth mode (drop 12 arg)) w)
            else argv_loop rest (mode\<lparr>depth := dep\<rparr>) files invalid w)
         else argv_loop rest mode files True (print_err (unrecognized_option mode arg) w))
      else if take 2 arg = ''--'' then
        argv_loop rest mode files True (print_err (unrecognized_option mode arg) w)
      else if take 1 arg = ''-'' then
        (let (mode1, invalid1, w1) = short_options (drop 1 arg) mode invalid w
         in argv_loop rest mode1 files invalid1 w1)
      else argv_loop rest mode (files @ [arg]) invalid w)"

text \<open>
  \<open>ReadCmdArguments\<close> writes the paths and a final \<open>NULL\<close> into the array \<open>main\<close>
  allocated, which has \<open>MAX_FILES\<close> slots; with more than \<open>MAX_FILES - 1\<close> paths the
  writes leave the array (\<open>Overrun\<close>). Otherwise it returns the mode and the paths, or
  prints the hint and calls \<open>exit(EXIT_FAILURE)\<close> when an argument was invalid.
\<close>

definition MAX_FILES :: nat where
  "MAX_FILES = 128"

datatype parsed = Parsed Mode "string list" | Exit_failure | Overrun

definition ReadCmdArguments :: "string list \<Rightarrow> Mode \<Rightarrow> world \<Rightarrow> parsed \<times> world" where
  "ReadCmdArguments args mode w =
     (let (mode1, files, invalid, w1) = argv_loop args mode [] False w in
      if length files \<ge> MAX_FILES then (Overrun, w1)
      else if invalid then (Exit_failure, print_err try_help w1)
      else (Parsed mode1 files, w1))"

text \<open>
  \<open>main\<close>: the initial mode \<open>{0, 0, 0, -1, *argv}\<close>, then the two calls. The result is
  the exit status, or \<open>None\<close> after an overrun of the path array.
\<close>

definition EXIT_SUCCESS :: int where
  "EXIT_SUCCESS = 0"

definition EXIT_FAILURE :: int where
  "EXIT_FAILURE = 1"

definition initial_mode :: "string \<Rightarrow> Mode" where
  "initial_mode prog = \<lparr>all = False, total = False, readable = False, depth = - 1, progName = prog\<rparr>"

definition main :: "node \<Rightarrow> (string \<Rightarrow> node option) \<Rightarrow> string \<Rightarrow> string list \<Rightarrow> world \<Rightarrow> int option \<times> world"
where
  "main cwd lstat prog args w =
     (case ReadCmdArguments args (initial_mode prog) w of
        (Overrun, w1) \<Rightarrow> (None, w1)
      | (Exit_failure, w1) \<Rightarrow> (Some EXIT_FAILURE, w1)
      | (Parsed mode files, w1) \<Rightarrow>
          (let (retVal, w2) = PrintDiskUsage cwd lstat files mode w1
           in (Some (if retVal \<noteq> 0 then EXIT_FAILURE else EXIT_SUCCESS), w2)))"

definition world0 :: world where
  "world0 = \<lparr>stdout = [], stderr = [], open_dirs = [], next_dir = 0\<rparr>"

subsection \<open>Notions used to state the properties\<close>

text \<open>The line one call of \<open>PrintFileUsage\<close> writes.\<close>

definition usage_line :: "int \<Rightarrow> string \<Rightarrow> Mode \<Rightarrow> string" where
  "usage_line siz name mode =
     (if readable mode then left8 (size_field (readable_size (of_int siz))) @ name
      else left8 (show_int siz) @ name)"



text \<open>The total of the walker with everything it prints left out.\<close>

fun du_total :: "node \<Rightarrow> int" and du_entries :: "(string \<times> node) list \<Rightarrow> int" where
  "du_total (Node ty blocks operr ents) =
     int blocks div 2 + (if ty = S_IFDIR \<and> operr = None then du_entries ents else 0)"
| "du_entries [] = 0"
| "du_entries ((name, child) # rest) =
     (if name = ''.'' \<or> name = ''..'' then 0
      else if isDir (st_mode child) then du_total child else kib child) + du_entries rest"








text \<open>The arguments that \<open>ReadCmdArguments\<close> stores as paths: those without a leading dash.\<close>

definition path_args :: "string list \<Rightarrow> string list" where
  "path_args args = filter (\<lambda>a. take 1 a \<noteq> ''-'') args"


subsection \<open>Example inputs\<close>

text \<open>
  A readable directory with a file, a subdirectory holding a symbolic link, and a FIFO;
  and a directory that \<open>opendir\<close> refuses, with a file inside.
\<close>

definition small_tree :: node where
  "small_tree = Node S_IFDIR 8 None
     [(''.'', Node S_IFDIR 8 None []), (''..'', Node S_IFDIR 8 None []),
      (''a'', Node S_IFREG 16 None []),
      (''s'', Node S_IFDIR 8 None [(''b'', Node S_IFLNK 2 None [])]),
      (''p'', Node S_IFIFO 0 None [])]"


text \<open>What one path named on the command line adds to \<open>total\<close> in \<open>PrintDiskUsage\<close>.\<close>

definition target_usage :: "(string \<Rightarrow> node option) \<Rightarrow> string \<Rightarrow> int" where
  "target_usage lstat p =
     (case lstat p of
        None \<Rightarrow> 0
      | Some buf \<Rightarrow>
          if isFile (st_mode buf) then kib buf
          else if isDir (st_mode buf) then du_total buf else 0)"

text \<open>Three small file systems: one holds a FIFO named \<open>pipe\<close>, one a symbolic link named \<open>f\<close>,
  one the example tree under the name \<open>d\<close>.\<close>

definition fifo_only :: "string \<Rightarrow> node option" where
  "fifo_only p = (if p = ''pipe'' then Some (Node S_IFIFO 8 None []) else None)"

definition one_file :: "string \<Rightarrow> node option" where
  "one_file p = (if p = ''f'' then Some (Node S_IFLNK 24 None []) else None)"

definition tree_at_d :: "string \<Rightarrow> node option" where
  "tree_at_d p = (if p = ''d'' then Some small_tree else None)"

section \<open>The walker, step by step\<close>

lemma PrintFileUsage_line:
  "PrintFileUsage siz name mode w = (siz, print_out (usage_line siz name mode) w)"
  by (simp add: PrintFileUsage_def PrintFileReadable_def usage_line_def)

lemma opendir_None_iff:
  "fst (opendir n w) = None \<longleftrightarrow> \<not> (st_mode n = S_IFDIR \<and> opendir_error n = None)"
  by (simp add: opendir_def)

lemma opendir_Some:
  "fst (opendir n w) = Some h \<Longrightarrow>
     st_mode n = S_IFDIR \<and> opendir_error n = None \<and> h = next_dir w
     \<and> snd (opendir n w) = w\<lparr>open_dirs := next_dir w # open_dirs w, next_dir := Suc (next_dir w)\<rparr>"
  by (auto simp: opendir_def split: if_splits)

lemma PDU_unreadable:
  assumes "fst (opendir n w) = None"
  shows "PrintDirectoryUsage f n m d w = (kib n, print_err (cannot_read m f (opendir_errno n)) w)"
proof (cases n)
  case (Node ty blocks operr ents)
  from assms have "opendir n w = (None, w)"
    by (auto simp: opendir_def split: if_splits)
  then show ?thesis
    by (simp add: Node kib_def closedir_def)
qed

lemma PDU_readable:
  assumes "fst (opendir n w) = Some h"
  shows "PrintDirectoryUsage f n m d w =
    (let r = readdir_loop f (dirents n) m d (kib n) (snd (opendir n w)) in
     (fst r, closedir (Some h)
        (if DepthOK d m then snd (PrintFileUsage (fst r) f m (snd r)) else snd r)))"
proof (cases n)
  case (Node ty blocks operr ents)
  obtain w1 where op: "opendir (Node ty blocks operr ents) w = (Some h, w1)"
    using assms unfolding Node by (cases "opendir (Node ty blocks operr ents) w") simp
  show ?thesis
    by (simp add: Node op kib_def Let_def split: prod.splits)
qed

lemma readdir_loop_skip:
  "name = ''.'' \<or> name = ''..'' \<Longrightarrow>
   readdir_loop f ((name, c) # rest) m d tot w = readdir_loop f rest m d tot w"
  by simp

lemma readdir_loop_file:
  "\<not> (name = ''.'' \<or> name = ''..'') \<Longrightarrow> isFile (st_mode c) \<and> all m \<and> DepthOK (d + 1) m \<Longrightarrow>
   readdir_loop f ((name, c) # rest) m d tot w =
     readdir_loop f rest m d (tot + kib c) (snd (PrintFileUsage (kib c) (child_path f name) m w))"
  by (simp add: PrintFileUsage_def)

lemma readdir_loop_dir:
  "\<not> (name = ''.'' \<or> name = ''..'') \<Longrightarrow> isDir (st_mode c) \<Longrightarrow>
   readdir_loop f ((name, c) # rest) m d tot w =
     readdir_loop f rest m d
       (tot + fst (PrintDirectoryUsage (child_path f name) c m (d + 1) w))
       (snd (PrintDirectoryUsage (child_path f name) c m (d + 1) w))"
  by (simp add: isFile_def isDir_def split: prod.splits)

lemma readdir_loop_other:
  "\<not> (name = ''.'' \<or> name = ''..'') \<Longrightarrow> \<not> (isFile (st_mode c) \<and> all m \<and> DepthOK (d + 1) m) \<Longrightarrow>
   \<not> isDir (st_mode c) \<Longrightarrow>
   readdir_loop f ((name, c) # rest) m d tot w = readdir_loop f rest m d (tot + kib c) w"
  by (auto simp: Let_def)

text \<open>
  Induction along the walk, one case for each way through \<open>PrintDirectoryUsage\<close> and
  through one round of its loop.
\<close>

lemma walker_induct [case_names unreadable readable nil skip fileline subdir other]:
  assumes "\<And>f n m d w. fst (opendir n w) = None \<Longrightarrow> P f n m d w"
    and "\<And>f n m d w h. fst (opendir n w) = Some h \<Longrightarrow>
           Q f (dirents n) m d (kib n) (snd (opendir n w)) \<Longrightarrow> P f n m d w"
    and "\<And>f m d tot w. Q f [] m d tot w"
    and "\<And>f name c rest m d tot w. name = ''.'' \<or> name = ''..'' \<Longrightarrow>
           Q f rest m d tot w \<Longrightarrow> Q f ((name, c) # rest) m d tot w"
    and "\<And>f name c rest m d tot w. \<not> (name = ''.'' \<or> name = ''..'') \<Longrightarrow>
           isFile (st_mode c) \<and> all m \<and> DepthOK (d + 1) m \<Longrightarrow>
           Q f rest m d (tot + kib c) (snd (PrintFileUsage (kib c) (child_path f name) m w)) \<Longrightarrow>
           Q f ((name, c) # rest) m d tot w"
    and "\<And>f name c rest m d tot w. \<not> (name = ''.'' \<or> name = ''..'') \<Longrightarrow>
           isDir (st_mode c) \<Longrightarrow>
           P (child_path f name) c m (d + 1) w \<Longrightarrow>
           Q f rest m d (tot + fst (PrintDirectoryUsage (child_path f name) c m (d + 1) w))
             (snd (PrintDirectoryUsage (child_path f name) c m (d + 1) w)) \<Longrightarrow>
           Q f ((name, c) # rest) m d tot w"
    and "\<And>f name c rest m d tot w. \<not> (name = ''.'' \<or> name = ''..'') \<Longrightarrow>
           \<not> (isFile (st_mode c) \<and> all m \<and> DepthOK (d + 1) m) \<Longrightarrow> \<not> isDir (st_mode c) \<Longrightarrow>
           Q f rest m d (tot + kib c) w \<Longrightarrow> Q f ((name, c) # rest) m d tot w"
  shows "P f0 n0 m0 d0 w0" and "Q f1 ents1 m1 d1 tot1 w1"
proof (induction f0 n0 m0 d0 w0 and f1 ents1 m1 d1 tot1 w1
    rule: PrintDirectoryUsage_readdir_loop.induct)
  case (1 fl ty blocks operr ents md dep w)
  let ?n = "Node ty blocks operr ents"
  show ?case
  proof (cases "fst (opendir ?n w)")
    case None
    then show ?thesis by (rule assms(1))
  next
    case (Some h)
    have "Q fl ents md dep (int blocks div 2) (snd (opendir ?n w))"
      by (rule 1 [OF refl _ refl Some]) simp
    then have "Q fl (dirents ?n) md dep (kib ?n) (snd (opendir ?n w))"
      by (simp add: kib_def)
    with Some show ?thesis by (rule assms(2))
  qed
next
  case (2 fl md dep tot w)
  show ?case by (rule assms(3))
next
  case (3 fl name child rest md dep tot w)
  show ?case
  proof (cases "name = ''.'' \<or> name = ''..''")
    case True
    with 3(1) show ?thesis by (intro assms(4))
  next
    case skip: False
    show ?thesis
    proof (cases "isFile (st_mode child) \<and> all md \<and> DepthOK (dep + 1) md")
      case True
      have "Q fl rest md dep (tot + kib child)
               (snd (PrintFileUsage (kib child) (child_path fl name) md w))"
        by (rule 3(2) [OF skip refl True refl]) (simp add: PrintFileUsage_def)
      with skip True show ?thesis by (intro assms(5))
    next
      case nf: False
      show ?thesis
      proof (cases "isDir (st_mode child)")
        case True
        let ?r = "PrintDirectoryUsage (child_path fl name) child md (dep + 1) w"
        have p: "P (child_path fl name) child md (dep + 1) w"
          by (rule 3(3) [OF skip refl nf True])
        have "Q fl rest md dep (tot + fst ?r) (snd ?r)"
          by (rule 3(4) [OF skip refl nf True refl]) simp
        with skip True p show ?thesis by (intro assms(6))
      next
        case False
        from 3(5) [OF skip refl nf False] skip nf False
        show ?thesis by (intro assms(7))
      qed
    qed
  qed
qed

declare PrintDirectoryUsage.simps [simp del]
declare readdir_loop.simps(2) [simp del]

lemma walker_total:
  "fst (PrintDirectoryUsage f n m d w) = du_total n"
  "fst (readdir_loop f' ents m' d' tot w') = tot + du_entries ents"
proof (induction f n m d w and f' ents m' d' tot w' rule: walker_induct)
  case (unreadable f n m d w)
  then have "\<not> (st_mode n = S_IFDIR \<and> opendir_error n = None)"
    by (simp add: opendir_None_iff)
  then show ?case
    unfolding PDU_unreadable [OF unreadable] by (cases n) (auto simp: kib_def)
next
  case (readable f n m d w h)
  then have "st_mode n = S_IFDIR \<and> opendir_error n = None"
    by (auto dest: opendir_Some)
  then show ?case
    unfolding PDU_readable [OF readable(1)] using readable(2)
    by (cases n) (simp add: kib_def Let_def)
next
  case (subdir f name c rest m d tot w)
  then show ?case unfolding readdir_loop_dir [OF subdir(1,2)] by simp
next
  case (fileline f name c rest m d tot w)
  then show ?case unfolding readdir_loop_file [OF fileline(1,2)]
    by (auto simp: isFile_def isDir_def)
next
  case (other f name c rest m d tot w)
  then show ?case unfolding readdir_loop_other [OF other(1,2,3)] by simp
qed (simp_all add: readdir_loop_skip)


lemma world_simps [simp]:
  "stdout (print_out l w) = stdout w @ [l]"
  "stderr (print_out l w) = stderr w"
  "open_dirs (print_out l w) = open_dirs w"
  "next_dir (print_out l w) = next_dir w"
  "stdout (print_err l w) = stdout w"
  "stderr (print_err l w) = stderr w @ [l]"
  "open_dirs (print_err l w) = open_dirs w"
  "next_dir (print_err l w) = next_dir w"
  "stdout (closedir dir w) = stdout w"
  "stderr (closedir dir w) = stderr w"
  "next_dir (closedir dir w) = next_dir w"
  by (simp_all add: print_out_def print_err_def closedir_def split: option.splits)

lemma snd_PrintFileUsage [simp]:
  "snd (PrintFileUsage siz name mode w) = print_out (usage_line siz name mode) w"
  by (simp add: PrintFileUsage_line)

lemma fst_PrintFileUsage [simp]: "fst (PrintFileUsage siz name mode w) = siz"
  by (simp add: PrintFileUsage_line)

section \<open>The total of a directory\<close>






section \<open>The depth limit\<close>

lemma quiet_below:
  "depth m \<noteq> - 1 \<Longrightarrow> depth m < d \<Longrightarrow> stdout (snd (PrintDirectoryUsage f n m d w)) = stdout w"
  "depth m' \<noteq> - 1 \<Longrightarrow> depth m' \<le> d' \<Longrightarrow>
     stdout (snd (readdir_loop f' ents m' d' tot w')) = stdout w'"
proof (induction f n m d w and f' ents m' d' tot w' rule: walker_induct)
  case (unreadable f n m d w)
  show ?case by (simp add: PDU_unreadable [OF unreadable(1)])
next
  case (readable f n m d w h)
  have "\<not> DepthOK d m" using readable by (simp add: DepthOK_def)
  moreover have "stdout (snd (opendir n w)) = stdout w"
    using opendir_Some [OF readable(1)] by simp
  ultimately show ?case
    using readable by (simp add: PDU_readable [OF readable(1)] Let_def)
next
  case (nil f m d tot w)
  show ?case by simp
next
  case (skip f name c rest m d tot w)
  then show ?case by (simp add: readdir_loop_skip)
next
  case (fileline f name c rest m d tot w)
  then show ?case by (simp add: DepthOK_def)
next
  case (subdir f name c rest m d tot w)
  then show ?case by (simp add: readdir_loop_dir)
next
  case (other f name c rest m d tot w)
  then show ?case by (simp add: readdir_loop_other)
qed

section \<open>Directory streams\<close>





section \<open>A directory that cannot be read\<close>



section \<open>The reporter\<close>

lemma output_grows:
  "(\<exists>os. stdout (snd (PrintDirectoryUsage f n m d w)) = stdout w @ os)
   \<and> (\<exists>es. stderr (snd (PrintDirectoryUsage f n m d w)) = stderr w @ es)"
  "(\<exists>os. stdout (snd (readdir_loop f' ents m' d' tot w')) = stdout w' @ os)
   \<and> (\<exists>es. stderr (snd (readdir_loop f' ents m' d' tot w')) = stderr w' @ es)"
proof (induction f n m d w and f' ents m' d' tot w' rule: walker_induct)
  case (unreadable f n m d w)
  show ?case by (simp add: PDU_unreadable [OF unreadable(1)])
next
  case (readable f n m d w h)
  note o = opendir_Some [OF readable(1)]
  have "stdout (snd (opendir n w)) = stdout w" "stderr (snd (opendir n w)) = stderr w"
    using o by simp_all
  with readable(2) show ?case
    by (auto simp: PDU_readable [OF readable(1)] Let_def)
next
  case (nil f m d tot w)
  show ?case by simp
next
  case (skip f name c rest m d tot w)
  then show ?case by (simp add: readdir_loop_skip)
next
  case (fileline f name c rest m d tot w)
  then show ?case
    by (auto simp: readdir_loop_file [OF fileline(1,2)])
next
  case (subdir f name c rest m d tot w)
  then show ?case
    by (auto simp: readdir_loop_dir [OF subdir(1,2)])
next
  case (other f name c rest m d tot w)
  then show ?case by (simp add: readdir_loop_other)
qed

lemma files_loop_step:
  "files_loop lstat (p # files) m tot r w =
     (case lstat p of
        None \<Rightarrow> files_loop lstat files m tot 1 (print_err (cannot_access m p) w)
      | Some buf \<Rightarrow>
          if isFile (st_mode buf) then
            files_loop lstat files m (tot + kib buf) r (print_out (usage_line (kib buf) p m) w)
          else if isDir (st_mode buf) then
            files_loop lstat files m (tot + du_total buf) r (snd (PrintDirectoryUsage p buf m 0 w))
          else files_loop lstat files m tot r w)"
  by (simp add: PrintFileUsage_line walker_total(1) case_prod_beta split: option.splits)

declare files_loop.simps(2) [simp del]

lemma files_loop_total:
  "fst (files_loop lstat files m tot r w) = tot + sum_list (map (target_usage lstat) files)"
proof (induction files arbitrary: tot r w)
  case Nil
  show ?case by simp
next
  case (Cons p files)
  show ?case
    unfolding files_loop_step
    by (simp add: Cons target_usage_def split: option.splits)
qed


lemma files_loop_grows:
  "\<exists>os. stdout (snd (snd (files_loop lstat files m tot r w))) = stdout w @ os"
proof (induction files arbitrary: tot r w)
  case Nil
  show ?case by simp
next
  case (Cons p files)
  show ?case
  proof (cases "lstat p")
    case None
    with Cons [of tot 1 "print_err (cannot_access m p) w"] show ?thesis
      unfolding files_loop_step by simp
  next
    case (Some buf)
    consider (fl) "isFile (st_mode buf)"
      | (dir) "\<not> isFile (st_mode buf)" "isDir (st_mode buf)"
      | (other) "\<not> isFile (st_mode buf)" "\<not> isDir (st_mode buf)"
      by blast
    then show ?thesis
    proof cases
      case fl
      from Cons [of "tot + kib buf" r "print_out (usage_line (kib buf) p m) w"]
      show ?thesis unfolding files_loop_step using Some fl by auto
    next
      case dir
      from output_grows(1) [of p buf m 0 w]
      obtain os1 where "stdout (snd (PrintDirectoryUsage p buf m 0 w)) = stdout w @ os1"
        by blast
      with Cons [of "tot + du_total buf" r "snd (PrintDirectoryUsage p buf m 0 w)"]
      show ?thesis unfolding files_loop_step using Some dir by auto
    next
      case other
      with Cons [of tot r w] show ?thesis
        unfolding files_loop_step using Some by simp
    qed
  qed
qed

lemma files_loop_prints_file:
  assumes "p \<in> set files" and "lstat p = Some buf" and "isFile (st_mode buf)"
  shows "usage_line (kib buf) p m \<in> set (stdout (snd (snd (files_loop lstat files m tot r w))))"
  using assms(1)
proof (induction files arbitrary: tot r w)
  case Nil
  then show ?case by simp
next
  case (Cons q files)
  show ?case
  proof (cases "q = p")
    case True
    obtain os where "stdout (snd (snd (files_loop lstat files m (tot + kib buf) r
        (print_out (usage_line (kib buf) p m) w)))) = stdout w @ [usage_line (kib buf) p m] @ os"
      using files_loop_grows [of lstat files m "tot + kib buf" r "print_out (usage_line (kib buf) p m) w"]
      by auto
    then show ?thesis
      unfolding files_loop_step using True assms(2,3) by simp
  next
    case False
    with Cons have "p \<in> set files" by simp
    note ih = Cons.IH [OF this]
    show ?thesis
      unfolding files_loop_step by (simp add: ih split: option.splits)
  qed
qed

lemma not_dash_not_dashes: "take 1 p \<noteq> ''-'' \<Longrightarrow> take 2 p \<noteq> ''--''"
  by (cases p) (auto simp: take_Suc_conv_app_nth numeral_2_eq_2)

lemma PrintDiskUsage_files:
  "files \<noteq> [] \<Longrightarrow> PrintDiskUsage cwd lstat files m w =
     (fst (snd (files_loop lstat files m 0 0 w)),
      if total m then print_out (usage_line (fst (files_loop lstat files m 0 0 w)) ''total'' m)
                        (snd (snd (files_loop lstat files m 0 0 w)))
      else snd (snd (files_loop lstat files m 0 0 w)))"
  by (simp add: PrintDiskUsage_def case_prod_beta)

subsection \<open>Maximum depth 0\<close>

text \<open>
  C5. With maximum depth 0, the walker run at depth 0 on a directory that can be opened
  adds exactly one line to standard output: the line of the directory's own total. No
  entry below it gets a line, whatever \<open>all\<close> (the \<open>-a\<close> flag) and \<open>readable\<close> are.
  So \<open>PrintDiskUsage\<close>, given that directory as its only path and no \<open>-c\<close>, prints
  exactly that line.
\<close>

theorem max_depth_0_prints_one_line:
  assumes "depth m = 0" and "st_mode D = S_IFDIR" and "opendir_error D = None"
  shows "stdout (snd (PrintDirectoryUsage f D m 0 w)) =
           stdout w @ [usage_line (fst (PrintDirectoryUsage f D m 0 w)) f m]
    \<and> (lstat p = Some D \<and> \<not> total m \<longrightarrow>
          stdout (snd (PrintDiskUsage cwd lstat [p] m w)) =
            stdout w @ [usage_line (fst (PrintDirectoryUsage p D m 0 w)) p m])"
proof -
  have one: "stdout (snd (PrintDirectoryUsage f' D m 0 w')) =
           stdout w' @ [usage_line (fst (PrintDirectoryUsage f' D m 0 w')) f' m]" for f' w'
  proof -
    have op: "fst (opendir D w') = Some (next_dir w')"
      using assms by (simp add: opendir_def)
    have ok: "DepthOK 0 m" using assms by (simp add: DepthOK_def)
    have "stdout (snd (readdir_loop f' (dirents D) m 0 (kib D) (snd (opendir D w')))) =
          stdout (snd (opendir D w'))"
      by (rule quiet_below(2)) (simp_all add: assms)
    also have "\<dots> = stdout w'"
      using opendir_Some [OF op] by simp
    finally show ?thesis
      using ok by (simp add: PDU_readable [OF op] Let_def)
  qed
  have dir: "isDir (st_mode D)" "\<not> isFile (st_mode D)"
    using assms by (simp_all add: isDir_def isFile_def)
  have "stdout (snd (PrintDiskUsage cwd lstat [p] m w)) =
            stdout w @ [usage_line (fst (PrintDirectoryUsage p D m 0 w)) p m]"
    if "lstat p = Some D \<and> \<not> total m"
    using that dir by (simp add: PrintDiskUsage_files files_loop_step one walker_total(1))
  with one show ?thesis by blast
qed

theorem max_depth_0_prints_one_line_witness:
  "depth ((initial_mode ''du'')\<lparr>all := True, depth := 0\<rparr>) = 0
   \<and> st_mode small_tree = S_IFDIR \<and> opendir_error small_tree = None
   \<and> stdout (snd (PrintDirectoryUsage ''d'' small_tree
        ((initial_mode ''du'')\<lparr>all := True, depth := 0\<rparr>) 0 world0)) = [''17      d'']
   \<and> tree_at_d ''d'' = Some small_tree
   \<and> \<not> total ((initial_mode ''du'')\<lparr>all := True, depth := 0\<rparr>)
   \<and> stdout (snd (PrintDiskUsage small_tree tree_at_d [''d'']
        ((initial_mode ''du'')\<lparr>all := True, depth := 0\<rparr>) world0)) = [''17      d'']
   \<and> stdout (snd (main small_tree tree_at_d ''du'' [''-a'', ''--max-depth=0'', ''d''] world0))
       = [''17      d'']"
proof -
  let ?m = "(initial_mode ''du'')\<lparr>all := True, depth := 0\<rparr>"
  have h1: "depth ?m = 0" by simp
  have h2: "st_mode small_tree = S_IFDIR" by (simp add: small_tree_def)
  have h3: "opendir_error small_tree = None" by (simp add: small_tree_def)
  have h4: "tree_at_d ''d'' = Some small_tree" by (simp add: tree_at_d_def)
  have h5: "\<not> total ?m" by (simp add: initial_mode_def)
  have tot: "fst (PrintDirectoryUsage ''d'' small_tree ?m 0 w) = 17" for w
    by (simp add: walker_total(1) small_tree_def kib_def isDir_def)
  have l: "usage_line 17 ''d'' ?m = ''17      d''"
    by (simp add: usage_line_def initial_mode_def left8_def show_int_def show_nat.simps
        digit_char_def)
  have e: "stdout world0 = []" by (simp add: world0_def)
  note t = max_depth_0_prints_one_line [where m = ?m and D = small_tree and f = "''d''"
      and w = world0 and lstat = tree_at_d and p = "''d''" and cwd = small_tree, OF h1 h2 h3]
  from t have a: "stdout (snd (PrintDirectoryUsage ''d'' small_tree ?m 0 world0)) = [''17      d'']"
    by (simp add: tot l e)
  from t h4 h5 have b: "stdout (snd (PrintDiskUsage small_tree tree_at_d [''d''] ?m world0))
      = [''17      d'']"
    by (simp add: tot l e)
  have c: "stdout (snd (main small_tree tree_at_d ''du'' [''-a'', ''--max-depth=0'', ''d''] world0))
       = [''17      d'']"
    by code_simp
  show ?thesis by (intro conjI h1 h2 h3 a h4 h5 b c)
qed

subsection \<open>Paths named on the command line\<close>

text \<open>
  C8. A path named on the command line that \<open>lstat\<close> reports as a regular file or a
  symbolic link always gets its usage line and always adds its halved block count to the
  grand total, for every mode (so with or without \<open>-a\<close>, and for every maximum depth):
  one round of the loop of \<open>PrintDiskUsage\<close> prints the line and raises the total, the
  line is on standard output when \<open>PrintDiskUsage\<close> returns, and the total the loop ends
  with is the sum over all named paths, where such a path counts with its usage.
\<close>

theorem named_file_always_printed:
  assumes "lstat p = Some buf" and "isFile (st_mode buf)"
  shows "files_loop lstat (p # files) m tot r w
           = files_loop lstat files m (tot + kib buf) r (print_out (usage_line (kib buf) p m) w)
    \<and> (p \<in> set paths \<longrightarrow>
          usage_line (kib buf) p m \<in> set (stdout (snd (PrintDiskUsage cwd lstat paths m w))))
    \<and> target_usage lstat p = kib buf
    \<and> fst (files_loop lstat paths m 0 0 w) = sum_list (map (target_usage lstat) paths)"
proof (intro conjI impI)
  show "files_loop lstat (p # files) m tot r w
           = files_loop lstat files m (tot + kib buf) r (print_out (usage_line (kib buf) p m) w)"
    unfolding files_loop_step using assms by simp
  show "target_usage lstat p = kib buf"
    using assms by (simp add: target_usage_def)
  show "fst (files_loop lstat paths m 0 0 w) = sum_list (map (target_usage lstat) paths)"
    by (simp add: files_loop_total)
  show "usage_line (kib buf) p m \<in> set (stdout (snd (PrintDiskUsage cwd lstat paths m w)))"
    if "p \<in> set paths"
  proof -
    from that have ne: "paths \<noteq> []" by auto
    show ?thesis
      using files_loop_prints_file [of p paths lstat buf m 0 0 w, OF that assms]
      by (simp add: PrintDiskUsage_files [OF ne])
  qed
qed

theorem named_file_always_printed_witness:
  "one_file ''f'' = Some (Node S_IFLNK 24 None []) \<and> isFile (st_mode (Node S_IFLNK 24 None []))
   \<and> files_loop one_file [''f''] ((initial_mode ''du'')\<lparr>depth := 0\<rparr>) 0 0 world0
       = (12, 0, print_out ''12      f'' world0)
   \<and> ''f'' \<in> set [''f'']
   \<and> ''12      f'' \<in> set (stdout (snd (PrintDiskUsage small_tree one_file [''f'']
         ((initial_mode ''du'')\<lparr>depth := 0\<rparr>) world0)))
   \<and> target_usage one_file ''f'' = 12"
proof -
  have h1: "one_file ''f'' = Some (Node S_IFLNK 24 None [])" by (simp add: one_file_def)
  have h2: "isFile (st_mode (Node S_IFLNK 24 None []))" by (simp add: isFile_def)
  have k: "kib (Node S_IFLNK 24 None []) = 12" by (simp add: kib_def)
  have l: "usage_line 12 ''f'' ((initial_mode ''du'')\<lparr>depth := 0\<rparr>) = ''12      f''"
    by (simp add: usage_line_def initial_mode_def left8_def show_int_def show_nat.simps
        digit_char_def)
  have m: "''f'' \<in> set [''f'']" by simp
  note t = named_file_always_printed [where lstat = one_file and p = "''f''" and files = "[]"
      and m = "(initial_mode ''du'')\<lparr>depth := 0\<rparr>" and tot = 0 and r = 0 and w = world0
      and paths = "[''f'']" and cwd = small_tree, OF h1 h2]
  have a: "files_loop one_file [''f''] ((initial_mode ''du'')\<lparr>depth := 0\<rparr>) 0 0 world0
       = (12, 0, print_out ''12      f'' world0)"
    using t k l by simp
  have b: "''12      f'' \<in> set (stdout (snd (PrintDiskUsage small_tree one_file [''f'']
         ((initial_mode ''du'')\<lparr>depth := 0\<rparr>) world0)))"
    using t k l m by simp
  have c: "target_usage one_file ''f'' = 12"
    using t k by simp
  show ?thesis by (intro conjI h1 h2 a m b c)
qed

text \<open>
  C10. A path named on the command line that exists and is neither a regular file, a
  symbolic link nor a directory leaves everything as it is: the round of the loop prints
  no line, writes no diagnostic, adds nothing to the total and keeps \<open>retVal\<close>. Run on
  that path alone, \<open>PrintDiskUsage\<close> returns 0 and prints at most the \<open>total\<close> line of
  \<open>-c\<close> with value 0, and the whole program exits with success and without any output.
\<close>

theorem other_file_type_is_ignored:
  assumes "lstat p = Some buf" and "\<not> isFile (st_mode buf)" and "\<not> isDir (st_mode buf)"
  shows "files_loop lstat (p # files) m tot r w = files_loop lstat files m tot r w
    \<and> target_usage lstat p = 0
    \<and> PrintDiskUsage cwd lstat [p] m w
        = (0, if total m then print_out (usage_line 0 ''total'' m) w else w)
    \<and> (take 1 p \<noteq> ''-'' \<longrightarrow> main cwd lstat prog [p] w = (Some EXIT_SUCCESS, w))"
proof (intro conjI impI)
  show step: "files_loop lstat (p # files) m tot r w = files_loop lstat files m tot r w" for files m tot r w
    unfolding files_loop_step using assms by simp
  show "target_usage lstat p = 0"
    using assms by (simp add: target_usage_def)
  show pdu: "PrintDiskUsage cwd lstat [p] m w
        = (0, if total m then print_out (usage_line 0 ''total'' m) w else w)" for m w
    by (simp add: PrintDiskUsage_files step)
  show "main cwd lstat prog [p] w = (Some EXIT_SUCCESS, w)" if "take 1 p \<noteq> ''-''"
  proof -
    have "argv_loop [p] (initial_mode prog) [] False w = (initial_mode prog, [p], False, w)"
      using that not_dash_not_dashes [OF that] by (simp add: argv_loop.simps)
    then have "ReadCmdArguments [p] (initial_mode prog) w = (Parsed (initial_mode prog) [p], w)"
      by (simp add: ReadCmdArguments_def MAX_FILES_def)
    then show ?thesis
      by (simp add: main_def pdu initial_mode_def)
  qed
qed


theorem other_file_type_is_ignored_witness:
  "fifo_only ''pipe'' = Some (Node S_IFIFO 8 None [])
   \<and> \<not> isFile (st_mode (Node S_IFIFO 8 None [])) \<and> \<not> isDir (st_mode (Node S_IFIFO 8 None []))
   \<and> files_loop fifo_only [''pipe''] (initial_mode ''du'') 5 0 world0 = (5, 0, world0)
   \<and> target_usage fifo_only ''pipe'' = 0
   \<and> PrintDiskUsage small_tree fifo_only [''pipe''] (initial_mode ''du'') world0 = (0, world0)
   \<and> take 1 ''pipe'' \<noteq> ''-''
   \<and> main small_tree fifo_only ''du'' [''pipe''] world0 = (Some 0, world0)"
proof -
  have h1: "fifo_only ''pipe'' = Some (Node S_IFIFO 8 None [])" by (simp add: fifo_only_def)
  have h2: "\<not> isFile (st_mode (Node S_IFIFO 8 None []))" by (simp add: isFile_def)
  have h3: "\<not> isDir (st_mode (Node S_IFIFO 8 None []))" by (simp add: isDir_def)
  have h4: "take 1 ''pipe'' \<noteq> ''-''" by simp
  note t = other_file_type_is_ignored [where lstat = fifo_only and p = "''pipe''" and files = "[]"
      and m = "initial_mode ''du''" and tot = 5 and r = 0 and w = world0
      and cwd = small_tree and prog = "''du''", OF h1 h2 h3]
  have a: "files_loop fifo_only [''pipe''] (initial_mode ''du'') 5 0 world0 = (5, 0, world0)"
    using t by simp
  have b: "target_usage fifo_only ''pipe'' = 0"
    using t by simp
  have c: "PrintDiskUsage small_tree fifo_only [''pipe''] (initial_mode ''du'') world0 = (0, world0)"
    using t by (simp add: initial_mode_def)
  have d: "main small_tree fifo_only ''du'' [''pipe''] world0 = (Some 0, world0)"
    using t h4 by (simp add: EXIT_SUCCESS_def)
  show ?thesis by (intro conjI h1 h2 h3 a b c h4 d)
qed

section \<open>The command line\<close>

lemma short_options_props:
  "short_options cs mode invalid w = (mode', invalid', w') \<Longrightarrow>
     progName mode' = progName mode \<and> depth mode' = depth mode \<and> (invalid \<longrightarrow> invalid')
     \<and> (\<exists>es. stderr w' = stderr w @ es) \<and> stdout w' = stdout w
     \<and> open_dirs w' = open_dirs w \<and> next_dir w' = next_dir w"
proof (induction cs arbitrary: mode invalid w)
  case Nil
  then show ?case by simp
next
  case (Cons c cs)
  consider (a) "c = CHR ''a''" | (c) "c \<noteq> CHR ''a''" "c = CHR ''c''"
    | (h) "c \<noteq> CHR ''a''" "c \<noteq> CHR ''c''" "c = CHR ''h''"
    | (bad) "c \<noteq> CHR ''a''" "c \<noteq> CHR ''c''" "c \<noteq> CHR ''h''"
    by blast
  then show ?case
  proof cases
    case a
    with Cons.prems have "short_options cs (mode\<lparr>all := True\<rparr>) invalid w = (mode', invalid', w')"
      by simp
    from Cons.IH [OF this] show ?thesis by simp
  next
    case c
    with Cons.prems have "short_options cs (mode\<lparr>total := True\<rparr>) invalid w = (mode', invalid', w')"
      by simp
    from Cons.IH [OF this] show ?thesis by simp
  next
    case h
    with Cons.prems have "short_options cs (mode\<lparr>readable := True\<rparr>) invalid w = (mode', invalid', w')"
      by simp
    from Cons.IH [OF this] show ?thesis by simp
  next
    case bad
    with Cons.prems
    have "short_options cs mode True (print_err (invalid_option mode c) w) = (mode', invalid', w')"
      by simp
    from Cons.IH [OF this] show ?thesis by auto
  qed
qed

text \<open>One round of the loop over the arguments, by the kind of argument.\<close>

lemma argv_loop_max_depth:
  "take 12 arg = ''--max-depth='' \<Longrightarrow>
   argv_loop (arg # rest) mode files invalid w =
     (if snd (strtol (drop 12 arg)) \<or> fst (strtol (drop 12 arg)) < 0 \<or> drop 12 arg = [] then
        argv_loop rest (mode\<lparr>depth := fst (strtol (drop 12 arg))\<rparr>) files True
          (print_err (invalid_depth mode (drop 12 arg)) w)
      else argv_loop rest (mode\<lparr>depth := fst (strtol (drop 12 arg))\<rparr>) files invalid w)"
proof -
  assume a: "take 12 arg = ''--max-depth=''"
  then have "length (take 12 arg) = 12" by simp
  then have l: "length arg \<ge> 12" by simp
  have "take 2 (take 12 arg) = ''--''" unfolding a by simp
  then have t: "take 2 arg = ''--''" by simp
  show ?thesis
    by (simp add: a l t case_prod_beta)
qed

lemma argv_loop_unrecognized:
  "take 2 arg = ''--'' \<Longrightarrow> take 12 arg \<noteq> ''--max-depth='' \<Longrightarrow>
   argv_loop (arg # rest) mode files invalid w =
     argv_loop rest mode files True (print_err (unrecognized_option mode arg) w)"
  by simp

lemma take_1_2: "take 2 arg = ''--'' \<Longrightarrow> take 1 arg = ''-''"
proof -
  assume "take 2 arg = ''--''"
  then have "take 1 (take 2 arg) = ''-''" by simp
  then show ?thesis by simp
qed

lemma argv_loop_short:
  "take 2 arg \<noteq> ''--'' \<Longrightarrow> take 1 arg = ''-'' \<Longrightarrow>
   argv_loop (arg # rest) mode files invalid w =
     argv_loop rest (fst (short_options (drop 1 arg) mode invalid w)) files
       (fst (snd (short_options (drop 1 arg) mode invalid w)))
       (snd (snd (short_options (drop 1 arg) mode invalid w)))"
  by (simp add: case_prod_beta)

lemma argv_loop_path:
  "take 1 arg \<noteq> ''-'' \<Longrightarrow>
   argv_loop (arg # rest) mode files invalid w = argv_loop rest mode (files @ [arg]) invalid w"
  using take_1_2 [of arg] by auto

lemma take_12_2: "take 12 arg = ''--max-depth='' \<Longrightarrow> take 2 arg = ''--''"
proof -
  assume a: "take 12 arg = ''--max-depth=''"
  have "take 2 (take 12 arg) = ''--''" unfolding a by simp
  then show ?thesis by simp
qed

lemma argv_loop_cases [case_names max_depth unrecognized short path]:
  assumes "take 12 arg = ''--max-depth='' \<Longrightarrow> P"
    and "take 2 arg = ''--'' \<Longrightarrow> take 12 arg \<noteq> ''--max-depth='' \<Longrightarrow> P"
    and "take 2 arg \<noteq> ''--'' \<Longrightarrow> take 1 arg = ''-'' \<Longrightarrow> P"
    and "take 1 arg \<noteq> ''-'' \<Longrightarrow> P"
  shows P
proof -
  show ?thesis using assms take_12_2 [of arg] by blast
qed

declare argv_loop.simps(2) [simp del]

lemma argv_loop_props:
  "argv_loop args mode files invalid w = (mode', files', invalid', w') \<Longrightarrow>
     progName mode' = progName mode \<and> files' = files @ path_args args \<and> (invalid \<longrightarrow> invalid')
     \<and> (\<exists>es. stderr w' = stderr w @ es) \<and> stdout w' = stdout w
     \<and> open_dirs w' = open_dirs w \<and> next_dir w' = next_dir w"
proof (induction args arbitrary: mode files invalid w)
  case Nil
  then show ?case by (simp add: path_args_def)
next
  case (Cons arg rest)
  show ?case
  proof (cases arg rule: argv_loop_cases)
    case max_depth
    then have d: "take 1 arg = ''-''"
      by (intro take_1_2 take_12_2)
    show ?thesis
    proof (cases "snd (strtol (drop 12 arg)) \<or> fst (strtol (drop 12 arg)) < 0 \<or> drop 12 arg = []")
      case True
      with Cons.prems have "argv_loop rest (mode\<lparr>depth := fst (strtol (drop 12 arg))\<rparr>) files True
          (print_err (invalid_depth mode (drop 12 arg)) w) = (mode', files', invalid', w')"
        by (simp add: argv_loop_max_depth [OF max_depth])
      from Cons.IH [OF this] show ?thesis using d by (auto simp: path_args_def)
    next
      case False
      with Cons.prems have "argv_loop rest (mode\<lparr>depth := fst (strtol (drop 12 arg))\<rparr>) files
          invalid w = (mode', files', invalid', w')"
        by (simp add: argv_loop_max_depth [OF max_depth])
      from Cons.IH [OF this] show ?thesis using d by (auto simp: path_args_def)
    qed
  next
    case unrecognized
    with Cons.prems have "argv_loop rest mode files True (print_err (unrecognized_option mode arg) w)
        = (mode', files', invalid', w')"
      by (simp add: argv_loop_unrecognized)
    from Cons.IH [OF this] show ?thesis
      using take_1_2 [OF unrecognized(1)] by (auto simp: path_args_def)
  next
    case short
    obtain m1 i1 w1 where so: "short_options (drop 1 arg) mode invalid w = (m1, i1, w1)"
      by (cases "short_options (drop 1 arg) mode invalid w") auto
    with Cons.prems short have "argv_loop rest m1 files i1 w1 = (mode', files', invalid', w')"
      by (simp add: argv_loop_short)
    from Cons.IH [OF this] short_options_props [OF so] show ?thesis
      using short(2) by (auto simp: path_args_def)
  next
    case path
    with Cons.prems have "argv_loop rest mode (files @ [arg]) invalid w = (mode', files', invalid', w')"
      by (simp add: argv_loop_path)
    from Cons.IH [OF this] show ?thesis using path by (auto simp: path_args_def)
  qed
qed


lemma argv_loop_append:
  "argv_loop (xs @ ys) mode files invalid w =
     (case argv_loop xs mode files invalid w of
        (m1, f1, i1, w1) \<Rightarrow> argv_loop ys m1 f1 i1 w1)"
proof (induction xs arbitrary: mode files invalid w)
  case Nil
  show ?case by simp
next
  case (Cons arg rest)
  show ?case
  proof (cases arg rule: argv_loop_cases)
    case max_depth
    show ?thesis by (simp add: argv_loop_max_depth [OF max_depth] Cons)
  next
    case unrecognized
    then show ?thesis by (simp add: argv_loop_unrecognized Cons)
  next
    case short
    then show ?thesis by (simp add: argv_loop_short Cons)
  next
    case path
    then show ?thesis by (simp add: argv_loop_path Cons)
  qed
qed

lemma invalid_depth_progName:
  "progName m1 = progName m2 \<Longrightarrow> invalid_depth m1 v = invalid_depth m2 v"
  by (simp add: invalid_depth_def)

lemma argv_loop_rejects_depth:
  assumes bad: "snd (strtol v) \<or> fst (strtol v) < 0 \<or> v = []"
    and mem: "''--max-depth='' @ v \<in> set args"
    and res: "argv_loop args mode files invalid w = (mode', files', invalid', w')"
  shows "invalid' \<and> invalid_depth mode v \<in> set (stderr w')"
proof -
  let ?arg = "''--max-depth='' @ v"
  from mem obtain pre post where args: "args = pre @ ?arg # post"
    by (auto dest: split_list)
  obtain m1 f1 i1 w1 where pre: "argv_loop pre mode files invalid w = (m1, f1, i1, w1)"
    by (cases "argv_loop pre mode files invalid w") auto
  have t: "take 12 ?arg = ''--max-depth=''" by simp
  have d: "drop 12 ?arg = v" by simp
  have "argv_loop (?arg # post) m1 f1 i1 w1 =
      argv_loop post (m1\<lparr>depth := fst (strtol v)\<rparr>) f1 True (print_err (invalid_depth m1 v) w1)"
    using bad unfolding argv_loop_max_depth [OF t] d by simp
  with res have post: "argv_loop post (m1\<lparr>depth := fst (strtol v)\<rparr>) f1 True
      (print_err (invalid_depth m1 v) w1) = (mode', files', invalid', w')"
    by (simp add: args argv_loop_append pre)
  have pn: "progName m1 = progName mode"
    using argv_loop_props [OF pre] by simp
  from argv_loop_props [OF post]
  have "invalid'" and "\<exists>es. stderr w' = stderr w1 @ [invalid_depth m1 v] @ es"
    by auto
  then show ?thesis
    using invalid_depth_progName [OF pn, of v] by auto
qed

lemma strtol_minus_one: "strtol ''-1'' = (- 1, False)"
  by (simp add: strtol_def isspace_def isdigit_def LONG_MAX_def LONG_MIN_def)

lemma argv_loop_keeps_depth:
  "\<forall>a \<in> set args. take 12 a \<noteq> ''--max-depth='' \<Longrightarrow>
   argv_loop args mode files invalid w = (mode', files', invalid', w') \<Longrightarrow>
   depth mode' = depth mode"
proof (induction args arbitrary: mode files invalid w)
  case Nil
  then show ?case by simp
next
  case (Cons arg rest)
  from Cons.prems(1) have rest: "\<forall>a \<in> set rest. take 12 a \<noteq> ''--max-depth=''"
    and nd: "take 12 arg \<noteq> ''--max-depth=''" by simp_all
  show ?case
  proof (cases arg rule: argv_loop_cases)
    case max_depth
    with nd show ?thesis by simp
  next
    case unrecognized
    with Cons.prems(2) have "argv_loop rest mode files True (print_err (unrecognized_option mode arg) w)
        = (mode', files', invalid', w')"
      by (simp add: argv_loop_unrecognized)
    from Cons.IH [OF rest this] show ?thesis .
  next
    case short
    obtain m1 i1 w1 where so: "short_options (drop 1 arg) mode invalid w = (m1, i1, w1)"
      by (cases "short_options (drop 1 arg) mode invalid w") auto
    with Cons.prems(2) short have "argv_loop rest m1 files i1 w1 = (mode', files', invalid', w')"
      by (simp add: argv_loop_short)
    from Cons.IH [OF rest this] short_options_props [OF so] show ?thesis by simp
  next
    case path
    with Cons.prems(2) have "argv_loop rest mode (files @ [arg]) invalid w = (mode', files', invalid', w')"
      by (simp add: argv_loop_path)
    from Cons.IH [OF rest this] show ?thesis .
  qed
qed

lemma ReadCmdArguments_rejects_depth:
  assumes bad: "snd (strtol v) \<or> fst (strtol v) < 0 \<or> v = []"
    and mem: "''--max-depth='' @ v \<in> set args"
    and cap: "length (path_args args) < MAX_FILES"
  shows "fst (ReadCmdArguments args mode w) = Exit_failure"
    and "invalid_depth mode v \<in> set (stderr (snd (ReadCmdArguments args mode w)))"
    and "stdout (snd (ReadCmdArguments args mode w)) = stdout w"
proof -
  obtain m1 f1 i1 w1 where r: "argv_loop args mode [] False w = (m1, f1, i1, w1)"
    by (cases "argv_loop args mode [] False w") auto
  from argv_loop_rejects_depth [OF bad mem r]
  have i: "i1" and msg: "invalid_depth mode v \<in> set (stderr w1)" by simp_all
  from argv_loop_props [OF r] have f: "f1 = path_args args" and o: "stdout w1 = stdout w"
    by simp_all
  have rc: "ReadCmdArguments args mode w = (Exit_failure, print_err try_help w1)"
    using cap by (simp add: ReadCmdArguments_def r i f)
  show "fst (ReadCmdArguments args mode w) = Exit_failure" by (simp add: rc)
  show "invalid_depth mode v \<in> set (stderr (snd (ReadCmdArguments args mode w)))"
    by (simp add: rc msg)
  show "stdout (snd (ReadCmdArguments args mode w)) = stdout w" by (simp add: rc o)
qed

text \<open>
  C3, as amended. The argument \<open>--max-depth=-1\<close> is a configuration error: whenever it
  is among the arguments (and the paths fit the array), \<open>ReadCmdArguments\<close> writes the
  diagnostic \<open>invalid maximum depth\<close> with the value \<open>-1\<close> and ends the process with
  failure, so \<open>main\<close> exits with \<open>EXIT_FAILURE\<close> and nothing is written to standard
  output. The unlimited configuration comes from leaving the option out: when no argument
  starts with \<open>--max-depth=\<close> and parsing succeeds, the depth of the mode is \<open>-1\<close> and
  every depth passes \<open>DepthOK\<close>.
\<close>

theorem max_depth_minus_one_is_rejected:
  "(''--max-depth=-1'' \<in> set args \<and> length (path_args args) < MAX_FILES \<longrightarrow>
      fst (ReadCmdArguments args (initial_mode prog) w) = Exit_failure
      \<and> invalid_depth (initial_mode prog) ''-1''
          \<in> set (stderr (snd (ReadCmdArguments args (initial_mode prog) w)))
      \<and> fst (main cwd lstat prog args w) = Some EXIT_FAILURE
      \<and> stdout (snd (main cwd lstat prog args w)) = stdout w)
   \<and> ((\<forall>a \<in> set args. take 12 a \<noteq> ''--max-depth='') \<longrightarrow>
        (\<forall>mode files w'. ReadCmdArguments args (initial_mode prog) w = (Parsed mode files, w') \<longrightarrow>
           depth mode = - 1 \<and> (\<forall>d. DepthOK d mode)))"
proof (intro conjI impI allI)
  assume a: "''--max-depth=-1'' \<in> set args \<and> length (path_args args) < MAX_FILES"
  have bad: "snd (strtol ''-1'') \<or> fst (strtol ''-1'') < 0 \<or> ''-1'' = []"
    by (simp add: strtol_minus_one)
  from a have mem: "''--max-depth='' @ ''-1'' \<in> set args" by simp
  from a have cap: "length (path_args args) < MAX_FILES" by simp
  note r = ReadCmdArguments_rejects_depth [OF bad mem cap, of "initial_mode prog" w]
  show "fst (ReadCmdArguments args (initial_mode prog) w) = Exit_failure" by (rule r(1))
  show "invalid_depth (initial_mode prog) ''-1''
          \<in> set (stderr (snd (ReadCmdArguments args (initial_mode prog) w)))" by (rule r(2))
  obtain w1 where rc: "ReadCmdArguments args (initial_mode prog) w = (Exit_failure, w1)"
    using r(1) by (cases "ReadCmdArguments args (initial_mode prog) w") auto
  show "fst (main cwd lstat prog args w) = Some EXIT_FAILURE"
    by (simp add: main_def rc)
  show "stdout (snd (main cwd lstat prog args w)) = stdout w"
    using r(3) by (simp add: main_def rc)
next
  fix mode files w'
  assume nd: "\<forall>a \<in> set args. take 12 a \<noteq> ''--max-depth=''"
    and p: "ReadCmdArguments args (initial_mode prog) w = (Parsed mode files, w')"
  obtain m1 f1 i1 w1 where r: "argv_loop args (initial_mode prog) [] False w = (m1, f1, i1, w1)"
    by (cases "argv_loop args (initial_mode prog) [] False w") auto
  from p have "m1 = mode"
    by (simp add: ReadCmdArguments_def r split: if_splits)
  with argv_loop_keeps_depth [OF nd r]
  show d: "depth mode = - 1" by (simp add: initial_mode_def)
  show "DepthOK d mode" for d by (simp add: DepthOK_def d)
qed


theorem max_depth_minus_one_is_rejected_witness:
  "''--max-depth=-1'' \<in> set [''-a'', ''--max-depth=-1'', ''x'']
   \<and> length (path_args [''-a'', ''--max-depth=-1'', ''x'']) < MAX_FILES
   \<and> fst (ReadCmdArguments [''-a'', ''--max-depth=-1'', ''x''] (initial_mode ''du'') world0)
       = Exit_failure
   \<and> invalid_depth (initial_mode ''du'') ''-1''
       \<in> set (stderr (snd (ReadCmdArguments [''-a'', ''--max-depth=-1'', ''x'']
             (initial_mode ''du'') world0)))
   \<and> fst (main small_tree one_file ''du'' [''-a'', ''--max-depth=-1'', ''x''] world0)
       = Some EXIT_FAILURE
   \<and> stdout (snd (main small_tree one_file ''du'' [''-a'', ''--max-depth=-1'', ''x''] world0)) = []
   \<and> take 12 ''-h'' \<noteq> ''--max-depth='' \<and> take 12 ''d'' \<noteq> ''--max-depth=''
   \<and> ReadCmdArguments [''-h'', ''d''] (initial_mode ''du'') world0
       = (Parsed ((initial_mode ''du'')\<lparr>readable := True\<rparr>) [''d''], world0)
   \<and> depth ((initial_mode ''du'')\<lparr>readable := True\<rparr>) = - 1
   \<and> DepthOK 7 ((initial_mode ''du'')\<lparr>readable := True\<rparr>)"
proof -
  have h1: "''--max-depth=-1'' \<in> set [''-a'', ''--max-depth=-1'', ''x'']" by simp
  have h2: "length (path_args [''-a'', ''--max-depth=-1'', ''x'']) < MAX_FILES"
    by (simp add: path_args_def MAX_FILES_def)
  have h3: "take 12 ''-h'' \<noteq> ''--max-depth=''" by simp
  have h4: "take 12 ''d'' \<noteq> ''--max-depth=''" by simp
  have h5: "ReadCmdArguments [''-h'', ''d''] (initial_mode ''du'') world0
       = (Parsed ((initial_mode ''du'')\<lparr>readable := True\<rparr>) [''d''], world0)"
    by code_simp
  note t1 = max_depth_minus_one_is_rejected
    [of "[''-a'', ''--max-depth=-1'', ''x'']" "''du''" world0 small_tree one_file]
  note t2 = max_depth_minus_one_is_rejected [of "[''-h'', ''d'']" "''du''" world0 small_tree one_file]
  from t1 h1 h2
  have a: "fst (ReadCmdArguments [''-a'', ''--max-depth=-1'', ''x''] (initial_mode ''du'') world0)
       = Exit_failure"
    and b: "invalid_depth (initial_mode ''du'') ''-1''
       \<in> set (stderr (snd (ReadCmdArguments [''-a'', ''--max-depth=-1'', ''x'']
             (initial_mode ''du'') world0)))"
    and c: "fst (main small_tree one_file ''du'' [''-a'', ''--max-depth=-1'', ''x''] world0)
       = Some EXIT_FAILURE"
    and d: "stdout (snd (main small_tree one_file ''du'' [''-a'', ''--max-depth=-1'', ''x''] world0))
       = stdout world0"
    by blast+
  from d have d': "stdout (snd (main small_tree one_file ''du'' [''-a'', ''--max-depth=-1'', ''x'']
      world0)) = []"
    by (simp add: world0_def)
  from t2 h3 h4 h5
  have e: "depth ((initial_mode ''du'')\<lparr>readable := True\<rparr>) = - 1"
    and f: "DepthOK 7 ((initial_mode ''du'')\<lparr>readable := True\<rparr>)"
    by simp_all
  show ?thesis by (intro conjI h1 h2 a b c d' h3 h4 h5 e f)
qed

text \<open>
  C3 as stated says that \<open>--max-depth=-1\<close> is accepted and behaves like no depth option.
  Run on the same tree, the program with \<open>--max-depth=-1\<close> fails and prints nothing on
  standard output, while the program without the option succeeds and prints two lines.
\<close>

theorem max_depth_minus_one_counterexample:
  "fst (main small_tree one_file ''du'' [''--max-depth=-1''] world0) = Some EXIT_FAILURE
   \<and> stdout (snd (main small_tree one_file ''du'' [''--max-depth=-1''] world0)) = []
   \<and> stderr (snd (main small_tree one_file ''du'' [''--max-depth=-1''] world0))
       = [invalid_depth (initial_mode ''du'') ''-1'', try_help]
   \<and> fst (main small_tree one_file ''du'' [] world0) = Some EXIT_SUCCESS
   \<and> stdout (snd (main small_tree one_file ''du'' [] world0)) = [''5       ./s'', ''17      .'']
   \<and> stderr (snd (main small_tree one_file ''du'' [] world0)) = []"
  by code_simp

text \<open>
  C4 at the value \<open>abc\<close>. \<open>strtol\<close> converts nothing, returns 0 and leaves \<open>errno\<close> at 0,
  the value is not empty, so none of the three tests of \<open>ReadCmdArguments\<close> fires: the
  argument is taken as maximum depth 0, no diagnostic is written and the program runs and
  succeeds. (Negative, empty and out-of-range values are rejected: lemma
  \<open>ReadCmdArguments_rejects_depth\<close>.)
\<close>

theorem max_depth_abc_is_accepted:
  "ReadCmdArguments [''--max-depth=abc''] (initial_mode ''du'') world0
     = (Parsed ((initial_mode ''du'')\<lparr>depth := 0\<rparr>) [], world0)
   \<and> fst (main small_tree one_file ''du'' [''--max-depth=abc''] world0) = Some EXIT_SUCCESS
   \<and> stdout (snd (main small_tree one_file ''du'' [''--max-depth=abc''] world0)) = [''17      .'']
   \<and> stderr (snd (main small_tree one_file ''du'' [''--max-depth=abc''] world0)) = []"
  by code_simp

section \<open>The size formatter\<close>
















end
